theory Spec2Isabelle
  imports Main
begin

section \<open>The rule record and its codec\<close>

text \<open>
  A stored rule: the policy type tag and six positional string fields. An empty string
  stands for an absent field.
\<close>

record CasbinRule =
  PType :: string
  V0 :: string
  V1 :: string
  V2 :: string
  V3 :: string
  V4 :: string
  V5 :: string

text \<open>Run-time panics of the Go code that the operations below can raise.\<close>

datatype panic = SliceBoundsOutOfRange | IndexOutOfRange | NilPointerDereference

text \<open>
  The policy model of the enforcement engine: section \<open>\<rightharpoonup>\<close> (type tag \<open>\<rightharpoonup>\<close> assertion).
  Only the \<open>Policy\<close> list of an assertion is read or written by the adapter. The engine
  builds one assertion for each type tag, so the assertions are held here by value.
\<close>

record Assertion =
  Policy :: "string list list"

type_synonym AssertionMap = "string \<rightharpoonup> Assertion"
type_synonym Model = "string \<rightharpoonup> AssertionMap"

text \<open>\<open>savePolicyLine\<close>: the record starts with only the type tag set; each field is
  assigned when the rule is long enough.\<close>

definition savePolicyLine :: "string \<Rightarrow> string list \<Rightarrow> CasbinRule" where
  "savePolicyLine ptype rule =
    (let line = \<lparr>PType = ptype, V0 = [], V1 = [], V2 = [], V3 = [], V4 = [], V5 = []\<rparr>;
         line = (if length rule > 0 then line\<lparr>V0 := rule ! 0\<rparr> else line);
         line = (if length rule > 1 then line\<lparr>V1 := rule ! 1\<rparr> else line);
         line = (if length rule > 2 then line\<lparr>V2 := rule ! 2\<rparr> else line);
         line = (if length rule > 3 then line\<lparr>V3 := rule ! 3\<rparr> else line);
         line = (if length rule > 4 then line\<lparr>V4 := rule ! 4\<rparr> else line);
         line = (if length rule > 5 then line\<lparr>V5 := rule ! 5\<rparr> else line)
     in line)"

text \<open>The field scan of \<open>loadPolicyLine\<close>: every empty field jumps to \<open>LineEnd\<close> with the
  tokens collected so far.\<close>

definition tokens_of :: "CasbinRule \<Rightarrow> string list" where
  "tokens_of line =
    (if V0 line = [] then []
     else if V1 line = [] then [V0 line]
     else if V2 line = [] then [V0 line, V1 line]
     else if V3 line = [] then [V0 line, V1 line, V2 line]
     else if V4 line = [] then [V0 line, V1 line, V2 line, V3 line]
     else if V5 line = [] then [V0 line, V1 line, V2 line, V3 line, V4 line]
     else [V0 line, V1 line, V2 line, V3 line, V4 line, V5 line])"

text \<open>The slice \<open>key[:1]\<close>: Go panics when the string is shorter than the upper bound.\<close>

definition section_of :: "string \<Rightarrow> panic + string" where
  "section_of key = (if length key < 1 then Inl SliceBoundsOutOfRange else Inr (take 1 key))"

text \<open>
  \<open>loadPolicyLine\<close>: the section is sliced off first, then the fields are scanned, then the
  tokens are appended under \<open>model[sec][key]\<close>. Indexing a missing section or type yields a
  nil assertion pointer, whose \<open>Policy\<close> field cannot be read.
\<close>

definition loadPolicyLine :: "CasbinRule \<Rightarrow> Model \<Rightarrow> panic + Model" where
  "loadPolicyLine line model =
    (let key = PType line in
     case section_of key of
       Inl p \<Rightarrow> Inl p
     | Inr sec \<Rightarrow>
         (let tokens = tokens_of line in
          case model sec of
            None \<Rightarrow> Inl NilPointerDereference
          | Some am \<Rightarrow>
              (case am key of
                 None \<Rightarrow> Inl NilPointerDereference
               | Some ast \<Rightarrow>
                   Inr (model(sec \<mapsto> am(key \<mapsto> ast\<lparr>Policy := Policy ast @ [tokens]\<rparr>))))))"

text \<open>The six fields of a record in order, and the rules of the model under a type tag.\<close>

definition field_list :: "CasbinRule \<Rightarrow> string list" where
  "field_list line = [V0 line, V1 line, V2 line, V3 line, V4 line, V5 line]"

definition policy_at :: "Model \<Rightarrow> string \<Rightarrow> string list list" where
  "policy_at model key =
    (case model (take 1 key) of
       None \<Rightarrow> []
     | Some am \<Rightarrow> (case am key of None \<Rightarrow> [] | Some ast \<Rightarrow> Policy ast))"

text \<open>A list of strings is prefix-dense when no empty string is followed by a non-empty one.\<close>

fun prefix_dense :: "string list \<Rightarrow> bool" where
  "prefix_dense [] = True"
| "prefix_dense (x # xs) = (if x = [] then list_all (\<lambda>s. s = []) xs else prefix_dense xs)"



section \<open>The selector of \<open>RemoveFilteredPolicy\<close>\<close>

text \<open>
  Go's \<open>int\<close> is a 64-bit two's-complement integer: sums and differences wrap around.
  \<open>fieldIndex\<close> is such an integer, and so is \<open>len(fieldValues)\<close>.
\<close>

definition wrap64 :: "int \<Rightarrow> int" where
  "wrap64 x = (x + 2 ^ 63) mod 2 ^ 64 - 2 ^ 63"

definition is_int64 :: "int \<Rightarrow> bool" where
  "is_int64 x = (- (2 ^ 63) \<le> x \<and> x < 2 ^ 63)"

text \<open>Indexing a slice panics outside \<open>0 .. len - 1\<close>.\<close>

definition index :: "string list \<Rightarrow> int \<Rightarrow> panic + string" where
  "index xs k = (if 0 \<le> k \<and> k < int (length xs) then Inr (xs ! nat k) else Inl IndexOutOfRange)"

definition and_then :: "panic + 'a \<Rightarrow> ('a \<Rightarrow> panic + 'b) \<Rightarrow> panic + 'b" where
  "and_then r f = (case r of Inl p \<Rightarrow> Inl p | Inr x \<Rightarrow> f x)"

text \<open>
  One of the six guarded blocks: for the absolute position \<open>i\<close> and the key \<open>name\<close>,
  \<^verbatim>\<open>if fieldIndex <= i && i < fieldIndex+len(fieldValues) {
    if fieldValues[i-fieldIndex] != "" { selector[name] = fieldValues[i-fieldIndex] } }\<close>
\<close>

definition field_constraint ::
  "int \<Rightarrow> string \<Rightarrow> int \<Rightarrow> string list \<Rightarrow> (string \<rightharpoonup> string) \<Rightarrow> panic + (string \<rightharpoonup> string)" where
  "field_constraint i name fieldIndex fieldValues selector =
    (if fieldIndex \<le> i \<and> i < wrap64 (fieldIndex + int (length fieldValues)) then
       (case index fieldValues (wrap64 (i - fieldIndex)) of
          Inl p \<Rightarrow> Inl p
        | Inr v \<Rightarrow> (if v \<noteq> [] then Inr (selector(name \<mapsto> v)) else Inr selector))
     else Inr selector)"

text \<open>The selector as \<open>RemoveFilteredPolicy\<close> builds it: the type tag, then the six blocks.\<close>

definition filter_selector :: "string \<Rightarrow> int \<Rightarrow> string list \<Rightarrow> panic + (string \<rightharpoonup> string)" where
  "filter_selector ptype fieldIndex fieldValues =
    and_then (Inr [''ptype'' \<mapsto> ptype]) (\<lambda>selector.
    and_then (field_constraint 0 ''v0'' fieldIndex fieldValues selector) (\<lambda>selector.
    and_then (field_constraint 1 ''v1'' fieldIndex fieldValues selector) (\<lambda>selector.
    and_then (field_constraint 2 ''v2'' fieldIndex fieldValues selector) (\<lambda>selector.
    and_then (field_constraint 3 ''v3'' fieldIndex fieldValues selector) (\<lambda>selector.
    and_then (field_constraint 4 ''v4'' fieldIndex fieldValues selector) (\<lambda>selector.
    field_constraint 5 ''v5'' fieldIndex fieldValues selector))))))"

text \<open>
  The constraint the specification asks for at the absolute position \<open>i\<close>, in its own
  words and over unbounded integers: \<open>field_i = fieldValues[i - fieldIndex]\<close> iff
  \<open>fieldIndex \<le> i\<close>, \<open>i < fieldIndex + len(fieldValues)\<close> and that value is non-empty.
\<close>

definition spec_constraint :: "int \<Rightarrow> string list \<Rightarrow> int \<Rightarrow> string option" where
  "spec_constraint fieldIndex fieldValues i =
    (if fieldIndex \<le> i \<and> i < fieldIndex + int (length fieldValues)
        \<and> fieldValues ! nat (i - fieldIndex) \<noteq> []
     then Some (fieldValues ! nat (i - fieldIndex)) else None)"

text \<open>Adding an optional constraint to a selector.\<close>

definition with_constraint ::
  "string \<Rightarrow> string option \<Rightarrow> (string \<rightharpoonup> string) \<Rightarrow> (string \<rightharpoonup> string)" where
  "with_constraint name c selector = (case c of None \<Rightarrow> selector | Some v \<Rightarrow> selector(name \<mapsto> v))"

section \<open>The adapter and the document store\<close>

text \<open>
  The MongoDB driver is not part of the repository; it is a parameter of the model. Errors
  are their messages. A cursor delivers documents while \<open>Next\<close> is true; for each of them
  \<open>Decode\<close> either fills a \<open>CasbinRule\<close> or fails. \<open>Next\<close> turns false at the end of the result
  and also on an iteration error, which the driver keeps for \<open>Err()\<close>; \<open>Close\<close> reports only a
  failure to close.
\<close>

type_synonym err = string

record cursor =
  docs :: "(err + CasbinRule) list"
  iter_err :: "err option"
  close_err :: "err option"

text \<open>
  The calls the adapter makes on its collection, over an abstract store \<open>'db\<close> and an
  abstract filter type \<open>'f\<close>; \<open>EmptyD\<close> is the empty document \<open>bson.D{}\<close>.
\<close>

record ('db, 'f) driver =
  EmptyD :: 'f
  Find :: "'f \<Rightarrow> 'db \<Rightarrow> err + cursor"
  Drop :: "'db \<Rightarrow> 'db \<times> err option"
  InsertMany :: "CasbinRule list \<Rightarrow> 'db \<Rightarrow> 'db \<times> err option"
  InsertOne :: "CasbinRule \<Rightarrow> 'db \<Rightarrow> 'db \<times> err option"
  DeleteOne :: "CasbinRule \<Rightarrow> 'db \<Rightarrow> 'db \<times> err option"
  DeleteMany :: "(string \<rightharpoonup> string) \<Rightarrow> 'db \<Rightarrow> 'db \<times> err option"

record adapter =
  databaseName :: string
  filtered :: bool

text \<open>
  How a call ends: it returns its \<open>error\<close> result (\<open>None\<close> is \<open>nil\<close>), the process exits
  through \<open>log.Fatal\<close>, or a run-time panic unwinds it.
\<close>

datatype outcome = Returned "err option" | Exited err | Panicked panic

text \<open>
  The loop over the cursor: a document that does not decode is passed over, a decoded one
  goes through \<open>loadPolicyLine\<close>. A panic stops the loop with the model as it is then.
\<close>

fun load_lines :: "(err + CasbinRule) list \<Rightarrow> Model \<Rightarrow> Model \<times> panic option" where
  "load_lines [] model = (model, None)"
| "load_lines (d # ds) model =
    (case d of
       Inl e \<Rightarrow> load_lines ds model
     | Inr line \<Rightarrow>
         (case loadPolicyLine line model of
            Inl p \<Rightarrow> (model, Some p)
          | Inr model' \<Rightarrow> load_lines ds model'))"

definition LoadFilteredPolicy ::
  "('db, 'f) driver \<Rightarrow> adapter \<Rightarrow> Model \<Rightarrow> 'f option \<Rightarrow> 'db \<Rightarrow> adapter \<times> Model \<times> outcome" where
  "LoadFilteredPolicy drv a model fltr db =
    (let (fltr', a') =
           (case fltr of
              None \<Rightarrow> (EmptyD drv, a\<lparr>filtered := False\<rparr>)
            | Some f \<Rightarrow> (f, a\<lparr>filtered := True\<rparr>))
     in case Find drv fltr' db of
          Inl e \<Rightarrow> (a', model, Exited e)
        | Inr cur \<Rightarrow>
            (case load_lines (docs cur) model of
               (model', Some p) \<Rightarrow> (a', model', Panicked p)
             | (model', None) \<Rightarrow> (a', model', Returned (close_err cur))))"

definition LoadPolicy ::
  "('db, 'f) driver \<Rightarrow> adapter \<Rightarrow> Model \<Rightarrow> 'db \<Rightarrow> adapter \<times> Model \<times> outcome" where
  "LoadPolicy drv a model db = LoadFilteredPolicy drv a model None db"

definition IsFiltered :: "adapter \<Rightarrow> bool" where
  "IsFiltered a = filtered a"

text \<open>
  \<open>SavePolicy\<close> ranges over the Go maps \<open>model["p"]\<close> and \<open>model["g"]\<close>; the order of a range
  is chosen by the run time and is given here by the key lists \<open>pkeys\<close> and \<open>gkeys\<close>. A
  missing section is a nil map, whose range is empty.
\<close>

definition section_lines :: "Model \<Rightarrow> string \<Rightarrow> string list \<Rightarrow> CasbinRule list" where
  "section_lines model sec keys =
    (case model sec of
       None \<Rightarrow> []
     | Some am \<Rightarrow>
         concat (map (\<lambda>ptype. case am ptype of
                                None \<Rightarrow> []
                              | Some ast \<Rightarrow> map (savePolicyLine ptype) (Policy ast)) keys))"

definition SavePolicy ::
  "('db, 'f) driver \<Rightarrow> string list \<Rightarrow> string list \<Rightarrow> adapter \<Rightarrow> Model \<Rightarrow> 'db
     \<Rightarrow> adapter \<times> 'db \<times> outcome" where
  "SavePolicy drv pkeys gkeys a model db =
    (if filtered a then (a, db, Returned (Some ''cannot save a filtered policy''))
     else
       (case Drop drv db of
          (db1, Some e) \<Rightarrow> (a, db1, Returned (Some e))
        | (db1, None) \<Rightarrow>
            (let lines = section_lines model ''p'' pkeys @ section_lines model ''g'' gkeys
             in case InsertMany drv lines db1 of (db2, r) \<Rightarrow> (a, db2, Returned r))))"

definition AddPolicy ::
  "('db, 'f) driver \<Rightarrow> adapter \<Rightarrow> string \<Rightarrow> string \<Rightarrow> string list \<Rightarrow> 'db
     \<Rightarrow> adapter \<times> 'db \<times> outcome" where
  "AddPolicy drv a sec ptype rule db =
    (let line = savePolicyLine ptype rule
     in case InsertOne drv line db of (db', r) \<Rightarrow> (a, db', Returned r))"

definition RemovePolicy ::
  "('db, 'f) driver \<Rightarrow> adapter \<Rightarrow> string \<Rightarrow> string \<Rightarrow> string list \<Rightarrow> 'db
     \<Rightarrow> adapter \<times> 'db \<times> outcome" where
  "RemovePolicy drv a sec ptype rule db =
    (let line = savePolicyLine ptype rule
     in case DeleteOne drv line db of (db', r) \<Rightarrow> (a, db', Returned r))"

definition RemoveFilteredPolicy ::
  "('db, 'f) driver \<Rightarrow> adapter \<Rightarrow> string \<Rightarrow> string \<Rightarrow> int \<Rightarrow> string list \<Rightarrow> 'db
     \<Rightarrow> adapter \<times> 'db \<times> outcome" where
  "RemoveFilteredPolicy drv a sec ptype fieldIndex fieldValues db =
    (case filter_selector ptype fieldIndex fieldValues of
       Inl p \<Rightarrow> (a, db, Panicked p)
     | Inr selector \<Rightarrow>
         (case DeleteMany drv selector db of (db', r) \<Rightarrow> (a, db', Returned r)))"

text \<open>A record can be loaded into a model that has an assertion for its type tag.\<close>

definition loadable :: "Model \<Rightarrow> CasbinRule \<Rightarrow> bool" where
  "loadable model line =
    (PType line \<noteq> [] \<and>
     (case model (take 1 (PType line)) of
        None \<Rightarrow> False
      | Some am \<Rightarrow> am (PType line) \<noteq> None))"

subsection \<open>A store in memory\<close>

text \<open>
  The simplest driver: the collection is the list of its documents, each with the result
  of decoding it; no call fails, and \<open>Find\<close> answers with the whole collection.
\<close>

definition matches :: "(string \<rightharpoonup> string) \<Rightarrow> err + CasbinRule \<Rightarrow> bool" where
  "matches selector d =
    (case d of
       Inl e \<Rightarrow> False
     | Inr line \<Rightarrow>
         list_all (\<lambda>(name, v). selector name = None \<or> selector name = Some v)
           [(''ptype'', PType line), (''v0'', V0 line), (''v1'', V1 line), (''v2'', V2 line),
            (''v3'', V3 line), (''v4'', V4 line), (''v5'', V5 line)])"

definition mem_driver :: "((err + CasbinRule) list, unit) driver" where
  "mem_driver =
    \<lparr>EmptyD = (),
     Find = (\<lambda>f db. Inr \<lparr>docs = db, iter_err = None, close_err = None\<rparr>),
     Drop = (\<lambda>db. ([], None)),
     InsertMany = (\<lambda>lines db. (db @ map Inr lines, None)),
     InsertOne = (\<lambda>line db. (db @ [Inr line], None)),
     DeleteOne = (\<lambda>line db. (remove1 (Inr line) db, None)),
     DeleteMany = (\<lambda>selector db. (filter (\<lambda>d. \<not> matches selector d) db, None))\<rparr>"

text \<open>A model with one permission type and one grouping type, both without rules.\<close>

definition empty_model :: Model where
  "empty_model = [''p'' \<mapsto> [''p'' \<mapsto> \<lparr>Policy = []\<rparr>], ''g'' \<mapsto> [''g'' \<mapsto> \<lparr>Policy = []\<rparr>]]"

section \<open>Facts about the codec\<close>

lemma save_fields:
  "PType (savePolicyLine ptype rule) = ptype"
  "V0 (savePolicyLine ptype rule) = (if 0 < length rule then rule ! 0 else [])"
  "V1 (savePolicyLine ptype rule) = (if 1 < length rule then rule ! 1 else [])"
  "V2 (savePolicyLine ptype rule) = (if 2 < length rule then rule ! 2 else [])"
  "V3 (savePolicyLine ptype rule) = (if 3 < length rule then rule ! 3 else [])"
  "V4 (savePolicyLine ptype rule) = (if 4 < length rule then rule ! 4 else [])"
  "V5 (savePolicyLine ptype rule) = (if 5 < length rule then rule ! 5 else [])"
  by (simp_all add: savePolicyLine_def Let_def)

text \<open>Encoding pads the rule with empty fields and keeps at most six values.\<close>

lemma field_list_save: "field_list (savePolicyLine ptype rule) = take 6 (rule @ replicate 6 [])"
proof (rule nth_equalityI)
  show "length (field_list (savePolicyLine ptype rule)) = length (take 6 (rule @ replicate 6 []))"
    by (simp add: field_list_def)
next
  fix i assume "i < length (field_list (savePolicyLine ptype rule))"
  then have i: "i < 6" by (simp add: field_list_def)
  then consider "i = 0" | "i = 1" | "i = 2" | "i = 3" | "i = 4" | "i = 5" by linarith
  then show "field_list (savePolicyLine ptype rule) ! i = take 6 (rule @ replicate 6 []) ! i"
    by cases (simp_all add: field_list_def save_fields nth_append)
qed

lemma field_list_save_short:
  "length rule \<le> 6 \<Longrightarrow> field_list (savePolicyLine ptype rule) = rule @ replicate (6 - length rule) []"
  by (simp add: field_list_save)

lemma tokens_of_takeWhile: "tokens_of line = takeWhile (\<lambda>v. v \<noteq> []) (field_list line)"
  by (simp add: tokens_of_def field_list_def)

lemma takeWhile_replicate_empty: "takeWhile (\<lambda>v. v \<noteq> []) (replicate k []) = []"
  by (cases k) simp_all

lemma takeWhile_pad:
  "takeWhile (\<lambda>v. v \<noteq> []) (xs @ replicate k []) = takeWhile (\<lambda>v. v \<noteq> []) xs"
  by (induction xs) (simp_all add: takeWhile_replicate_empty)

lemma takeWhile_eq_iff:
  "(takeWhile (\<lambda>v. v \<noteq> []) xs = xs) = list_all (\<lambda>s. s \<noteq> []) xs"
  by (simp add: takeWhile_eq_all_conv list_all_iff)

lemma list_all_empty_replicate: "list_all (\<lambda>s. s = []) (replicate k [])"
  by (induction k) simp_all

lemma prefix_dense_replicate: "prefix_dense (replicate k [])"
  by (cases k) (simp_all add: list_all_empty_replicate)

lemma prefix_dense_pad: "prefix_dense (xs @ replicate k []) = prefix_dense xs"
  by (induction xs) (simp_all add: prefix_dense_replicate list_all_empty_replicate)

text \<open>\<open>prefix_dense\<close> says what its name promises: behind an empty entry every entry is empty.\<close>

lemma prefix_dense_nth:
  "prefix_dense xs = (\<forall>i j. i < j \<longrightarrow> j < length xs \<longrightarrow> xs ! i = [] \<longrightarrow> xs ! j = [])"
proof (induction xs)
  case Nil
  show ?case by simp
next
  case (Cons x xs)
  show ?case
  proof (cases "x = []")
    case True
    have "list_all (\<lambda>s. s = []) xs = (\<forall>j. j < length xs \<longrightarrow> xs ! j = [])"
      by (simp add: list_all_length)
    also have "\<dots> = (\<forall>i j. i < j \<longrightarrow> j < length (x # xs) \<longrightarrow> (x # xs) ! i = [] \<longrightarrow> (x # xs) ! j = [])"
    proof
      assume a: "\<forall>j. j < length xs \<longrightarrow> xs ! j = []"
      show "\<forall>i j. i < j \<longrightarrow> j < length (x # xs) \<longrightarrow> (x # xs) ! i = [] \<longrightarrow> (x # xs) ! j = []"
      proof (intro allI impI)
        fix i j assume "i < j" "j < length (x # xs)" "(x # xs) ! i = []"
        then obtain j' where "j = Suc j'" "j' < length xs" by (cases j) simp_all
        with a show "(x # xs) ! j = []" by simp
      qed
    next
      assume a: "\<forall>i j. i < j \<longrightarrow> j < length (x # xs) \<longrightarrow> (x # xs) ! i = [] \<longrightarrow> (x # xs) ! j = []"
      show "\<forall>j. j < length xs \<longrightarrow> xs ! j = []"
      proof (intro allI impI)
        fix j assume "j < length xs"
        with a[rule_format, of 0 "Suc j"] True show "xs ! j = []" by simp
      qed
    qed
    finally show ?thesis using True by simp
  next
    case False
    have "(\<forall>i j. i < j \<longrightarrow> j < length xs \<longrightarrow> xs ! i = [] \<longrightarrow> xs ! j = [])
        = (\<forall>i j. i < j \<longrightarrow> j < length (x # xs) \<longrightarrow> (x # xs) ! i = [] \<longrightarrow> (x # xs) ! j = [])"
    proof
      assume a: "\<forall>i j. i < j \<longrightarrow> j < length xs \<longrightarrow> xs ! i = [] \<longrightarrow> xs ! j = []"
      show "\<forall>i j. i < j \<longrightarrow> j < length (x # xs) \<longrightarrow> (x # xs) ! i = [] \<longrightarrow> (x # xs) ! j = []"
      proof (intro allI impI)
        fix i j assume h: "i < j" "j < length (x # xs)" "(x # xs) ! i = []"
        from h False obtain i' where i': "i = Suc i'" by (cases i) simp_all
        from h obtain j' where j': "j = Suc j'" by (cases j) simp_all
        from a[rule_format, of i' j'] h i' j' show "(x # xs) ! j = []" by simp
      qed
    next
      assume a: "\<forall>i j. i < j \<longrightarrow> j < length (x # xs) \<longrightarrow> (x # xs) ! i = [] \<longrightarrow> (x # xs) ! j = []"
      show "\<forall>i j. i < j \<longrightarrow> j < length xs \<longrightarrow> xs ! i = [] \<longrightarrow> xs ! j = []"
      proof (intro allI impI)
        fix i j assume "i < j" "j < length xs" "xs ! i = []"
        with a[rule_format, of "Suc i" "Suc j"] show "xs ! j = []" by simp
      qed
    qed
    with Cons.IH False show ?thesis by simp
  qed
qed


lemma loadPolicyLine_Inr:
  assumes "PType line \<noteq> []" "model (take 1 (PType line)) = Some am" "am (PType line) = Some ast"
  shows "loadPolicyLine line model =
    Inr (model(take 1 (PType line) \<mapsto> am(PType line \<mapsto> ast\<lparr>Policy := Policy ast @ [tokens_of line]\<rparr>)))"
  using assms by (simp add: loadPolicyLine_def section_of_def Let_def)

lemma loadPolicyLine_empty_type:
  "PType line = [] \<Longrightarrow> loadPolicyLine line model = Inl SliceBoundsOutOfRange"
  by (simp add: loadPolicyLine_def section_of_def)

lemma loadPolicyLine_nonempty_type:
  "PType line \<noteq> [] \<Longrightarrow> loadPolicyLine line model \<noteq> Inl SliceBoundsOutOfRange"
  by (simp add: loadPolicyLine_def section_of_def Let_def split: option.split)

section \<open>Facts about the selector\<close>

lemma wrap64_id: "is_int64 x \<Longrightarrow> wrap64 x = x"
  by (simp add: wrap64_def is_int64_def)

lemma wrap64_overflow:
  assumes "2 ^ 63 \<le> x" "x < 2 ^ 64"
  shows "wrap64 x < 0"
proof -
  have "(x + 2 ^ 63) mod 2 ^ 64 = (x - 2 ^ 63 + 2 ^ 64) mod (2 ^ 64 :: int)"
    by (simp add: add.commute)
  also have "\<dots> = (x - 2 ^ 63) mod 2 ^ 64"
    by (rule mod_add_self2)
  also have "\<dots> = x - 2 ^ 63"
    using assms by simp
  finally show ?thesis using assms by (simp add: wrap64_def)
qed

lemma guard_in_range:
  assumes fi: "is_int64 fieldIndex" and n: "int (length fieldValues) < 2 ^ 63"
    and i: "0 \<le> i" "i \<le> 5"
    and g: "fieldIndex \<le> i" "i < wrap64 (fieldIndex + int (length fieldValues))"
  shows "wrap64 (fieldIndex + int (length fieldValues)) = fieldIndex + int (length fieldValues)
       \<and> wrap64 (i - fieldIndex) = i - fieldIndex
       \<and> 0 \<le> i - fieldIndex \<and> i - fieldIndex < int (length fieldValues)"
proof -
  let ?s = "fieldIndex + int (length fieldValues)"
  have lo: "- (2 ^ 63) \<le> ?s" using fi by (simp add: is_int64_def)
  have hi: "?s < 2 ^ 64" using n g(1) i(2) by simp
  have "?s < 2 ^ 63"
  proof (rule ccontr)
    assume "\<not> ?s < 2 ^ 63"
    then have "wrap64 ?s < 0" using hi by (simp add: wrap64_overflow)
    with g(2) i(1) show False by simp
  qed
  with lo have s: "wrap64 ?s = ?s" by (simp add: wrap64_id is_int64_def)
  with g have r: "0 \<le> i - fieldIndex" "i - fieldIndex < int (length fieldValues)" by simp_all
  with n have "is_int64 (i - fieldIndex)" by (simp add: is_int64_def)
  then have "wrap64 (i - fieldIndex) = i - fieldIndex" by (rule wrap64_id)
  with s r show ?thesis by simp
qed


lemma index_in_range:
  "0 \<le> k \<Longrightarrow> k < int (length xs) \<Longrightarrow> index xs k = Inr (xs ! nat k)"
  by (simp add: index_def)

lemma field_constraint_total:
  assumes "is_int64 fieldIndex" "int (length fieldValues) < 2 ^ 63" "0 \<le> i" "i \<le> 5"
  shows "\<exists>selector'. field_constraint i name fieldIndex fieldValues selector = Inr selector'"
proof (cases "fieldIndex \<le> i \<and> i < wrap64 (fieldIndex + int (length fieldValues))")
  case True
  with assms have "index fieldValues (wrap64 (i - fieldIndex)) = Inr (fieldValues ! nat (i - fieldIndex))"
    using guard_in_range[of fieldIndex fieldValues i] by (simp add: index_in_range)
  with True show ?thesis by (simp add: field_constraint_def)
next
  case False
  then show ?thesis by (auto simp: field_constraint_def)
qed

lemma field_constraint_spec:
  assumes fi: "is_int64 fieldIndex" and n: "length fieldValues \<le> 6" and i: "0 \<le> i" "i \<le> 5"
  shows "field_constraint i name fieldIndex fieldValues selector =
           Inr (with_constraint name (spec_constraint fieldIndex fieldValues i) selector)"
proof (cases "fieldIndex \<le> i")
  case le: True
  let ?s = "fieldIndex + int (length fieldValues)"
  have "is_int64 ?s" using fi n le i by (simp add: is_int64_def)
  then have s: "wrap64 ?s = ?s" by (rule wrap64_id)
  show ?thesis
  proof (cases "i < ?s")
    case True
    then have r: "0 \<le> i - fieldIndex" "i - fieldIndex < int (length fieldValues)" using le by simp_all
    with n have "is_int64 (i - fieldIndex)" by (simp add: is_int64_def)
    then have "wrap64 (i - fieldIndex) = i - fieldIndex" by (rule wrap64_id)
    with r have "index fieldValues (wrap64 (i - fieldIndex)) = Inr (fieldValues ! nat (i - fieldIndex))"
      by (simp add: index_in_range)
    with le True s show ?thesis
      by (simp add: field_constraint_def spec_constraint_def with_constraint_def)
  next
    case False
    with le s show ?thesis
      by (simp add: field_constraint_def spec_constraint_def with_constraint_def)
  qed
next
  case False
  then show ?thesis
    by (simp add: field_constraint_def spec_constraint_def with_constraint_def)
qed

lemma with_constraint_apply:
  "with_constraint name c selector k =
     (if k = name then (case c of None \<Rightarrow> selector k | Some v \<Rightarrow> Some v) else selector k)"
  by (simp add: with_constraint_def split: option.split)

lemma filter_selector_spec:
  assumes fi: "is_int64 fieldIndex" and n: "length fieldValues \<le> 6"
  shows "filter_selector ptype fieldIndex fieldValues =
    Inr (with_constraint ''v5'' (spec_constraint fieldIndex fieldValues 5)
        (with_constraint ''v4'' (spec_constraint fieldIndex fieldValues 4)
        (with_constraint ''v3'' (spec_constraint fieldIndex fieldValues 3)
        (with_constraint ''v2'' (spec_constraint fieldIndex fieldValues 2)
        (with_constraint ''v1'' (spec_constraint fieldIndex fieldValues 1)
        (with_constraint ''v0'' (spec_constraint fieldIndex fieldValues 0)
          [''ptype'' \<mapsto> ptype]))))))"
  by (simp add: filter_selector_def and_then_def field_constraint_spec[OF fi n])

lemma filter_selector_total:
  assumes fi: "is_int64 fieldIndex" and n: "int (length fieldValues) < 2 ^ 63"
  shows "\<exists>selector. filter_selector ptype fieldIndex fieldValues = Inr selector"
proof -
  obtain s0 where s0: "field_constraint 0 ''v0'' fieldIndex fieldValues [''ptype'' \<mapsto> ptype] = Inr s0"
    using field_constraint_total[OF fi n, of 0] by auto
  obtain s1 where s1: "field_constraint 1 ''v1'' fieldIndex fieldValues s0 = Inr s1"
    using field_constraint_total[OF fi n, of 1] by auto
  obtain s2 where s2: "field_constraint 2 ''v2'' fieldIndex fieldValues s1 = Inr s2"
    using field_constraint_total[OF fi n, of 2] by auto
  obtain s3 where s3: "field_constraint 3 ''v3'' fieldIndex fieldValues s2 = Inr s3"
    using field_constraint_total[OF fi n, of 3] by auto
  obtain s4 where s4: "field_constraint 4 ''v4'' fieldIndex fieldValues s3 = Inr s4"
    using field_constraint_total[OF fi n, of 4] by auto
  obtain s5 where s5: "field_constraint 5 ''v5'' fieldIndex fieldValues s4 = Inr s5"
    using field_constraint_total[OF fi n, of 5] by auto
  show ?thesis
    by (simp add: filter_selector_def and_then_def s0 s1 s2 s3 s4 s5)
qed

section \<open>Facts about loading\<close>

lemma load_lines_skip:
  "load_lines (pre @ Inl e # post) model = load_lines (pre @ post) model"
  by (induction pre arbitrary: model) (simp_all split: sum.split)

lemma policy_at_update:
  assumes am: "model (take 1 (PType line)) = Some am"
    and ast: "am (PType line) = Some ast"
  shows "policy_at (model(take 1 (PType line) \<mapsto>
                      am(PType line \<mapsto> ast\<lparr>Policy := Policy ast @ [tokens_of line]\<rparr>))) key
         = policy_at model key @ (if PType line = key then [tokens_of line] else [])"
proof (cases "key = PType line")
  case True
  with am ast show ?thesis by (simp add: policy_at_def)
next
  case ne: False
  show ?thesis
  proof (cases "take 1 key = take 1 (PType line)")
    case True
    then have "model (take 1 key) = Some am" by (simp only: am)
    with True ne show ?thesis by (simp add: policy_at_def)
  next
    case False
    with ne show ?thesis by (simp add: policy_at_def)
  qed
qed

lemma loadable_update:
  assumes am: "model (take 1 (PType line)) = Some am"
    and ast: "am (PType line) = Some ast"
  shows "loadable (model(take 1 (PType line) \<mapsto>
                     am(PType line \<mapsto> ast\<lparr>Policy := Policy ast @ [tokens_of line]\<rparr>))) l
         = loadable model l"
  using am ast by (simp add: loadable_def)

lemma loadable_step:
  assumes "loadable model line"
  shows "\<exists>model'. loadPolicyLine line model = Inr model'
    \<and> (\<forall>key. policy_at model' key =
          policy_at model key @ (if PType line = key then [tokens_of line] else []))
    \<and> (\<forall>l. loadable model' l = loadable model l)"
proof -
  from assms obtain am ast where
    t: "PType line \<noteq> []" and am: "model (take 1 (PType line)) = Some am"
    and ast: "am (PType line) = Some ast"
    by (auto simp: loadable_def split: option.splits)
  let ?m = "model(take 1 (PType line) \<mapsto> am(PType line \<mapsto> ast\<lparr>Policy := Policy ast @ [tokens_of line]\<rparr>))"
  have r: "loadPolicyLine line model = Inr ?m"
    using t am ast by (rule loadPolicyLine_Inr[of line model am ast])
  have p: "\<forall>key. policy_at ?m key = policy_at model key @ (if PType line = key then [tokens_of line] else [])"
    using policy_at_update[of model line am ast, OF am ast] by blast
  have l: "\<forall>l. loadable ?m l = loadable model l"
    using loadable_update[of model line am ast, OF am ast] by blast
  from r p l show ?thesis by blast
qed

lemma load_lines_loadable:
  "list_all (loadable model) ls \<Longrightarrow>
     \<exists>model'. load_lines (map Inr ls) model = (model', None)
       \<and> (\<forall>key. policy_at model' key =
             policy_at model key @ map tokens_of (filter (\<lambda>l. PType l = key) ls))"
proof (induction ls arbitrary: model)
  case Nil
  show ?case by simp
next
  case (Cons l ls)
  from Cons.prems have "loadable model l" by simp
  from loadable_step[OF this] obtain m1 where
    s: "loadPolicyLine l model = Inr m1"
    and p: "\<And>key. policy_at m1 key = policy_at model key @ (if PType l = key then [tokens_of l] else [])"
    and k: "\<And>l'. loadable m1 l' = loadable model l'"
    by blast
  from Cons.prems have "list_all (loadable model) ls" by simp
  then have "list_all (loadable m1) ls" by (simp add: list_all_iff k)
  from Cons.IH[OF this] obtain m2 where
    r: "load_lines (map Inr ls) m1 = (m2, None)"
    and q: "\<And>key. policy_at m2 key = policy_at m1 key @ map tokens_of (filter (\<lambda>l. PType l = key) ls)"
    by blast
  have "load_lines (map Inr (l # ls)) model = (m2, None)" using s r by simp
  moreover have "\<forall>key. policy_at m2 key =
      policy_at model key @ map tokens_of (filter (\<lambda>l. PType l = key) (l # ls))"
    by (simp add: q p)
  ultimately show ?case by blast
qed

lemma LoadFilteredPolicy_cursor:
  assumes "Find drv (case fltr of None \<Rightarrow> EmptyD drv | Some f \<Rightarrow> f) db = Inr cur"
    and "load_lines (docs cur) model = (model', None)"
  shows "LoadFilteredPolicy drv a model fltr db =
           (a\<lparr>filtered := fltr \<noteq> None\<rparr>, model', Returned (close_err cur))"
  using assms by (cases fltr) (simp_all add: LoadFilteredPolicy_def)


lemma LoadFilteredPolicy_find_error:
  assumes "Find drv (case fltr of None \<Rightarrow> EmptyD drv | Some f \<Rightarrow> f) db = Inl e"
  shows "LoadFilteredPolicy drv a model fltr db = (a\<lparr>filtered := fltr \<noteq> None\<rparr>, model, Exited e)"
  using assms by (cases fltr) (simp_all add: LoadFilteredPolicy_def)

text \<open>The iteration error of the cursor has no influence on the call.\<close>

lemma LoadFilteredPolicy_ignores_iter_err:
  "LoadFilteredPolicy (drv\<lparr>Find := (\<lambda>f db. Inr (cur\<lparr>iter_err := x\<rparr>))\<rparr>) a model fltr db
     = LoadFilteredPolicy (drv\<lparr>Find := (\<lambda>f db. Inr cur)\<rparr>) a model fltr db"
  by (cases fltr) (simp_all add: LoadFilteredPolicy_def)

lemma LoadFilteredPolicy_adapter:
  "fst (LoadFilteredPolicy drv a model fltr db) = a\<lparr>filtered := fltr \<noteq> None\<rparr>"
  by (cases fltr) (simp_all add: LoadFilteredPolicy_def split: sum.split prod.split option.split)

section \<open>The claims about the codec\<close>

text \<open>
  C1 (as amended). For every type tag and every tuple of 0 to 6 strings, decoding the record
  that encodes the tuple yields the tuple cut at its first empty string. It yields the tuple
  itself exactly when the tuple holds no empty string at all: an empty string in the last
  position is lost as well.
\<close>

theorem roundtrip_cut_at_first_empty:
  "length rule \<le> 6 \<Longrightarrow>
     tokens_of (savePolicyLine ptype rule) = takeWhile (\<lambda>s. s \<noteq> []) rule
     \<and> ((tokens_of (savePolicyLine ptype rule) = rule) = list_all (\<lambda>s. s \<noteq> []) rule)"
proof -
  assume "length rule \<le> 6"
  then have "tokens_of (savePolicyLine ptype rule) = takeWhile (\<lambda>s. s \<noteq> []) rule"
    by (simp only: tokens_of_takeWhile field_list_save_short takeWhile_pad)
  then show ?thesis
    by (simp only: takeWhile_eq_iff)
qed

theorem roundtrip_cut_at_first_empty_witness:
  "length [''alice'', ''data1'', ''read''] \<le> 6
   \<and> tokens_of (savePolicyLine ''p'' [''alice'', ''data1'', ''read'']) = [''alice'', ''data1'', ''read'']"
  using roundtrip_cut_at_first_empty [of "[''alice'', ''data1'', ''read'']" "''p''"] by simp

text \<open>
  The round trip as first stated fails: the tuple \<open>[alice, ""]\<close> has its only empty string
  in the last position, and comes back as \<open>[alice]\<close>.
\<close>

theorem roundtrip_trailing_empty_counterexample:
  "length [''alice'', []] \<le> 6 \<and> prefix_dense [''alice'', []]
   \<and> tokens_of (savePolicyLine ''p'' [''alice'', []]) \<noteq> [''alice'', []]"
  by (simp add: tokens_of_def save_fields)

text \<open>
  C6 (as amended). For every type tag and every tuple of 0 to 6 strings, the encoded record
  has a non-empty field behind an empty one exactly when the tuple has a non-empty value
  behind an empty one; so never for a tuple whose empty strings are all trailing. The
  values are stored as they are, without validation.
\<close>

theorem encode_hole_free_iff:
  "length rule \<le> 6 \<Longrightarrow>
     prefix_dense (field_list (savePolicyLine ptype rule)) = prefix_dense rule"
  by (simp only: field_list_save_short prefix_dense_pad)

theorem encode_hole_free_iff_witness:
  "length [''alice'', ''data1'', ''read''] \<le> 6
   \<and> prefix_dense (field_list (savePolicyLine ''p'' [''alice'', ''data1'', ''read'']))"
  using encode_hole_free_iff [of "[''alice'', ''data1'', ''read'']" "''p''"] by simp

text \<open>
  Encoding the tuple \<open>["", data1]\<close> leaves \<open>V0\<close> empty and sets \<open>V1\<close>.
\<close>

theorem encode_hole_counterexample:
  "length [[], ''data1''] \<le> 6
   \<and> V0 (savePolicyLine ''p'' [[], ''data1'']) = []
   \<and> V1 (savePolicyLine ''p'' [[], ''data1'']) \<noteq> []"
  by (simp add: save_fields)

text \<open>
  C8. Decoding produces the longest prefix of the fields \<open>V0 .. V5\<close> whose members are all
  non-empty, whatever the later fields hold; a record with an empty \<open>V0\<close> decodes to the
  empty tuple. For a record with a type tag whose assertion the model has, the tuple (the
  empty one too) is appended to the rules under (first character of the type, type).
\<close>

theorem decode_longest_nonempty_prefix:
  "tokens_of line = takeWhile (\<lambda>v. v \<noteq> []) (field_list line)
   \<and> (V0 line = [] \<longrightarrow> tokens_of line = [])
   \<and> (PType line \<noteq> [] \<and> model (take 1 (PType line)) = Some am \<and> am (PType line) = Some ast \<longrightarrow>
        loadPolicyLine line model =
          Inr (model(take 1 (PType line) \<mapsto>
                 am(PType line \<mapsto> ast\<lparr>Policy := Policy ast @ [tokens_of line]\<rparr>))))"
proof (intro conjI impI)
  show "tokens_of line = takeWhile (\<lambda>v. v \<noteq> []) (field_list line)"
    by (rule tokens_of_takeWhile)
next
  assume "V0 line = []"
  then show "tokens_of line = []" by (simp add: tokens_of_def)
next
  assume "PType line \<noteq> [] \<and> model (take 1 (PType line)) = Some am \<and> am (PType line) = Some ast"
  then show "loadPolicyLine line model =
          Inr (model(take 1 (PType line) \<mapsto>
                 am(PType line \<mapsto> ast\<lparr>Policy := Policy ast @ [tokens_of line]\<rparr>)))"
    by (simp add: loadPolicyLine_Inr)
qed

theorem decode_longest_nonempty_prefix_witness:
  "tokens_of \<lparr>PType = ''p'', V0 = ''alice'', V1 = [], V2 = ''read'', V3 = [], V4 = [], V5 = []\<rparr>
     = [''alice'']
   \<and> loadPolicyLine \<lparr>PType = ''p'', V0 = [], V1 = ''data1'', V2 = [], V3 = [], V4 = [], V5 = []\<rparr>
        empty_model
     = Inr (empty_model(''p'' \<mapsto> [''p'' \<mapsto> \<lparr>Policy = [[]]\<rparr>]))"
  using
    decode_longest_nonempty_prefix
      [of "\<lparr>PType = ''p'', V0 = ''alice'', V1 = [], V2 = ''read'', V3 = [], V4 = [], V5 = []\<rparr>"]
    decode_longest_nonempty_prefix
      [of "\<lparr>PType = ''p'', V0 = [], V1 = ''data1'', V2 = [], V3 = [], V4 = [], V5 = []\<rparr>"
          empty_model "[''p'' \<mapsto> \<lparr>Policy = []\<rparr>]" "\<lparr>Policy = []\<rparr>"]
  by (simp add: field_list_def empty_model_def)

text \<open>
  C9. Decoding a record returns only if its type tag is non-empty: the slice that takes the
  section is in range for every non-empty type tag and yields its first character, and a
  record with the empty type tag panics with the slice out of range, whatever the model.
\<close>

theorem decode_requires_type_tag:
  "(PType line = [] \<longrightarrow> loadPolicyLine line model = Inl SliceBoundsOutOfRange)
   \<and> (PType line \<noteq> [] \<longrightarrow> section_of (PType line) = Inr [hd (PType line)])
   \<and> (PType line \<noteq> [] \<longrightarrow> loadPolicyLine line model \<noteq> Inl SliceBoundsOutOfRange)
   \<and> ((\<exists>model'. loadPolicyLine line model = Inr model') \<longrightarrow> PType line \<noteq> [])"
proof (intro conjI impI)
  assume "PType line = []"
  then show "loadPolicyLine line model = Inl SliceBoundsOutOfRange"
    by (rule loadPolicyLine_empty_type)
next
  assume "PType line \<noteq> []"
  then show "section_of (PType line) = Inr [hd (PType line)]"
    by (cases "PType line") (simp_all add: section_of_def)
next
  assume "PType line \<noteq> []"
  then show "loadPolicyLine line model \<noteq> Inl SliceBoundsOutOfRange"
    by (rule loadPolicyLine_nonempty_type)
next
  assume "\<exists>model'. loadPolicyLine line model = Inr model'"
  then show "PType line \<noteq> []"
    by (auto simp: loadPolicyLine_empty_type)
qed

theorem decode_requires_type_tag_witness:
  "loadPolicyLine \<lparr>PType = [], V0 = ''alice'', V1 = [], V2 = [], V3 = [], V4 = [], V5 = []\<rparr>
     empty_model = Inl SliceBoundsOutOfRange
   \<and> section_of (PType \<lparr>PType = ''p2'', V0 = ''alice'', V1 = [], V2 = [], V3 = [], V4 = [], V5 = []\<rparr>)
     = Inr ''p''
   \<and> loadPolicyLine \<lparr>PType = ''p2'', V0 = ''alice'', V1 = [], V2 = [], V3 = [], V4 = [], V5 = []\<rparr>
     empty_model \<noteq> Inl SliceBoundsOutOfRange"
  using
    decode_requires_type_tag
      [of "\<lparr>PType = [], V0 = ''alice'', V1 = [], V2 = [], V3 = [], V4 = [], V5 = []\<rparr>" empty_model]
    decode_requires_type_tag
      [of "\<lparr>PType = ''p2'', V0 = ''alice'', V1 = [], V2 = [], V3 = [], V4 = [], V5 = []\<rparr>" empty_model]
  by simp

section \<open>The claims about the selector\<close>

text \<open>
  C2. For every type tag, every (64-bit) integer \<open>fieldIndex\<close> and every list of 0 to 6 values,
  building the selector succeeds and \<open>DeleteMany\<close> is called with it; the selector holds
  the type tag, it holds \<open>field_i = fieldValues[i - fieldIndex]\<close> exactly when
  \<open>fieldIndex \<le> i\<close>, \<open>i < fieldIndex + len(fieldValues)\<close> and that value is non-empty, for
  each position \<open>i\<close> from 0 to 5, and it holds nothing else.
\<close>

theorem selector_constraints:
  assumes "is_int64 fieldIndex" "length fieldValues \<le> 6"
  shows "\<exists>selector.
      filter_selector ptype fieldIndex fieldValues = Inr selector
    \<and> RemoveFilteredPolicy drv a sec ptype fieldIndex fieldValues db =
        (a, fst (DeleteMany drv selector db), Returned (snd (DeleteMany drv selector db)))
    \<and> selector ''ptype'' = Some ptype
    \<and> selector ''v0'' = spec_constraint fieldIndex fieldValues 0
    \<and> selector ''v1'' = spec_constraint fieldIndex fieldValues 1
    \<and> selector ''v2'' = spec_constraint fieldIndex fieldValues 2
    \<and> selector ''v3'' = spec_constraint fieldIndex fieldValues 3
    \<and> selector ''v4'' = spec_constraint fieldIndex fieldValues 4
    \<and> selector ''v5'' = spec_constraint fieldIndex fieldValues 5
    \<and> dom selector \<subseteq> {''ptype'', ''v0'', ''v1'', ''v2'', ''v3'', ''v4'', ''v5''}"
proof -
  define selector where "selector =
       with_constraint ''v5'' (spec_constraint fieldIndex fieldValues 5)
        (with_constraint ''v4'' (spec_constraint fieldIndex fieldValues 4)
        (with_constraint ''v3'' (spec_constraint fieldIndex fieldValues 3)
        (with_constraint ''v2'' (spec_constraint fieldIndex fieldValues 2)
        (with_constraint ''v1'' (spec_constraint fieldIndex fieldValues 1)
        (with_constraint ''v0'' (spec_constraint fieldIndex fieldValues 0)
          [''ptype'' \<mapsto> ptype])))))"
  have built: "filter_selector ptype fieldIndex fieldValues = Inr selector"
    unfolding selector_def by (rule filter_selector_spec[OF assms])
  have call: "RemoveFilteredPolicy drv a sec ptype fieldIndex fieldValues db =
        (a, fst (DeleteMany drv selector db), Returned (snd (DeleteMany drv selector db)))"
    by (simp add: RemoveFilteredPolicy_def built split: prod.split)
  have tag: "selector ''ptype'' = Some ptype"
    by (simp add: selector_def with_constraint_apply)
  have v0: "selector ''v0'' = spec_constraint fieldIndex fieldValues 0"
    by (simp add: selector_def with_constraint_apply split: option.split)
  have v1: "selector ''v1'' = spec_constraint fieldIndex fieldValues 1"
    by (simp add: selector_def with_constraint_apply split: option.split)
  have v2: "selector ''v2'' = spec_constraint fieldIndex fieldValues 2"
    by (simp add: selector_def with_constraint_apply split: option.split)
  have v3: "selector ''v3'' = spec_constraint fieldIndex fieldValues 3"
    by (simp add: selector_def with_constraint_apply split: option.split)
  have v4: "selector ''v4'' = spec_constraint fieldIndex fieldValues 4"
    by (simp add: selector_def with_constraint_apply split: option.split)
  have v5: "selector ''v5'' = spec_constraint fieldIndex fieldValues 5"
    by (simp add: selector_def with_constraint_apply split: option.split)
  have "dom selector \<subseteq> {''ptype'', ''v0'', ''v1'', ''v2'', ''v3'', ''v4'', ''v5''}"
  proof
    fix k assume "k \<in> dom selector"
    then obtain v where "selector k = Some v" by auto
    then show "k \<in> {''ptype'', ''v0'', ''v1'', ''v2'', ''v3'', ''v4'', ''v5''}"
      unfolding selector_def with_constraint_apply
      by (simp split: if_splits)
  qed
  with built call tag v0 v1 v2 v3 v4 v5 show ?thesis by blast
qed

theorem selector_constraints_witness:
  "is_int64 2 \<and> length [''read''] \<le> 6
   \<and> (\<exists>selector. filter_selector ''p'' 2 [''read''] = Inr selector
        \<and> selector ''ptype'' = Some ''p'' \<and> selector ''v0'' = None \<and> selector ''v1'' = None
        \<and> selector ''v2'' = Some ''read'' \<and> selector ''v3'' = None \<and> selector ''v4'' = None
        \<and> selector ''v5'' = None)"
proof -
  have h: "is_int64 2" "length [''read''] \<le> 6" by (simp_all add: is_int64_def)
  from selector_constraints [OF h, of "''p''" mem_driver "\<lparr>databaseName = ''casbin'', filtered = False\<rparr>" "''p''" "[]"]
  obtain selector where "filter_selector ''p'' 2 [''read''] = Inr selector"
    "selector ''ptype'' = Some ''p''"
    "selector ''v0'' = spec_constraint 2 [''read''] 0"
    "selector ''v1'' = spec_constraint 2 [''read''] 1"
    "selector ''v2'' = spec_constraint 2 [''read''] 2"
    "selector ''v3'' = spec_constraint 2 [''read''] 3"
    "selector ''v4'' = spec_constraint 2 [''read''] 4"
    "selector ''v5'' = spec_constraint 2 [''read''] 5"
    by blast
  then have "filter_selector ''p'' 2 [''read''] = Inr selector
        \<and> selector ''ptype'' = Some ''p'' \<and> selector ''v0'' = None \<and> selector ''v1'' = None
        \<and> selector ''v2'' = Some ''read'' \<and> selector ''v3'' = None \<and> selector ''v4'' = None
        \<and> selector ''v5'' = None"
    by (simp add: spec_constraint_def)
  with h show ?thesis by blast
qed

text \<open>
  C10. For every (64-bit) integer \<open>fieldIndex\<close>, negative ones included, and every list
  \<open>fieldValues\<close> of any length a slice can have, building the selector never indexes
  \<open>fieldValues\<close> out of bounds: under the two guards of a block the index \<open>i - fieldIndex\<close>,
  computed with wrap-around, lies in \<open>0 .. len - 1\<close>; so the construction returns a
  selector and \<open>RemoveFilteredPolicy\<close> does not panic.
\<close>

theorem selector_index_in_bounds:
  assumes "is_int64 fieldIndex" "int (length fieldValues) < 2 ^ 63"
  shows "(\<exists>selector. filter_selector ptype fieldIndex fieldValues = Inr selector)
    \<and> (\<forall>i. 0 \<le> i \<and> i \<le> 5 \<and> fieldIndex \<le> i
            \<and> i < wrap64 (fieldIndex + int (length fieldValues)) \<longrightarrow>
          0 \<le> wrap64 (i - fieldIndex) \<and> wrap64 (i - fieldIndex) < int (length fieldValues))
    \<and> (\<forall>p. snd (snd (RemoveFilteredPolicy drv a sec ptype fieldIndex fieldValues db)) \<noteq> Panicked p)"
proof (intro conjI allI impI)
  show "\<exists>selector. filter_selector ptype fieldIndex fieldValues = Inr selector"
    by (rule filter_selector_total[OF assms])
next
  fix i
  assume "0 \<le> i \<and> i \<le> 5 \<and> fieldIndex \<le> i \<and> i < wrap64 (fieldIndex + int (length fieldValues))"
  then show "0 \<le> wrap64 (i - fieldIndex)" "wrap64 (i - fieldIndex) < int (length fieldValues)"
    using guard_in_range[OF assms, of i] by simp_all
next
  fix p
  obtain selector where "filter_selector ptype fieldIndex fieldValues = Inr selector"
    using filter_selector_total[OF assms] by blast
  then show "snd (snd (RemoveFilteredPolicy drv a sec ptype fieldIndex fieldValues db)) \<noteq> Panicked p"
    by (simp add: RemoveFilteredPolicy_def split: prod.split)
qed

theorem selector_index_in_bounds_witness:
  "is_int64 (- 3) \<and> int (length [''a'', ''b'', ''c'', ''alice'', ''data1'']) < 2 ^ 63
   \<and> (\<exists>selector. filter_selector ''p'' (- 3) [''a'', ''b'', ''c'', ''alice'', ''data1''] = Inr selector)
   \<and> is_int64 (- (2 ^ 63))
   \<and> (\<exists>selector. filter_selector ''p'' (- (2 ^ 63)) [''alice''] = Inr selector)"
proof -
  have h: "is_int64 (- 3)" "int (length [''a'', ''b'', ''c'', ''alice'', ''data1'']) < 2 ^ 63"
    by (simp_all add: is_int64_def)
  have k: "is_int64 (- (2 ^ 63))" "int (length [''alice'']) < 2 ^ 63"
    by (simp_all add: is_int64_def)
  from selector_index_in_bounds [OF h, of "''p''" mem_driver "\<lparr>databaseName = ''casbin'', filtered = False\<rparr>" "''p''" "[]"]
       selector_index_in_bounds [OF k, of "''p''" mem_driver "\<lparr>databaseName = ''casbin'', filtered = False\<rparr>" "''p''" "[]"]
       h k
  show ?thesis by blast
qed

section \<open>The claims about the adapter\<close>

text \<open>
  C3. Whenever \<open>SavePolicy\<close> is called while \<open>filtered\<close> is true, it returns the error
  "cannot save a filtered policy" and changes nothing: whatever the driver does when it is
  called, the store is the one before the call (nothing dropped, nothing inserted), and so
  is the adapter.
\<close>

theorem save_refused_when_filtered:
  "filtered a \<Longrightarrow>
     SavePolicy drv pkeys gkeys a model db = (a, db, Returned (Some ''cannot save a filtered policy''))"
  by (simp add: SavePolicy_def)

theorem save_refused_when_filtered_witness:
  "filtered \<lparr>databaseName = ''casbin'', filtered = True\<rparr>
   \<and> SavePolicy mem_driver [''p''] [''g''] \<lparr>databaseName = ''casbin'', filtered = True\<rparr>
        empty_model
        [Inr \<lparr>PType = ''p'', V0 = ''alice'', V1 = ''data1'', V2 = ''read'', V3 = [], V4 = [], V5 = []\<rparr>]
     = (\<lparr>databaseName = ''casbin'', filtered = True\<rparr>,
        [Inr \<lparr>PType = ''p'', V0 = ''alice'', V1 = ''data1'', V2 = ''read'', V3 = [], V4 = [], V5 = []\<rparr>],
        Returned (Some ''cannot save a filtered policy''))"
  using save_refused_when_filtered
    [of "\<lparr>databaseName = ''casbin'', filtered = True\<rparr>" mem_driver "[''p'']" "[''g'']" empty_model
        "[Inr \<lparr>PType = ''p'', V0 = ''alice'', V1 = ''data1'', V2 = ''read'', V3 = [], V4 = [], V5 = []\<rparr>]"]
  by simp

text \<open>
  C4. The claim asks that a transport error and a cursor error of \<open>LoadFilteredPolicy\<close> come
  back to the caller as the returned error. The code does otherwise on both: when \<open>Find\<close>
  fails the process exits through \<open>log.Fatal\<close>, and an iteration error that ends the loop is
  never read, so the call returns \<open>nil\<close> when closing the cursor succeeds (the record decoded
  before the error stays in the model).
\<close>

theorem load_errors_not_returned:
  "LoadFilteredPolicy (mem_driver\<lparr>Find := (\<lambda>f db. Inl ''server selection timeout'')\<rparr>)
       \<lparr>databaseName = ''casbin'', filtered = False\<rparr> empty_model None []
     = (\<lparr>databaseName = ''casbin'', filtered = False\<rparr>, empty_model,
        Exited ''server selection timeout'')
   \<and> LoadFilteredPolicy
       (mem_driver\<lparr>Find := (\<lambda>f db. Inr
          \<lparr>docs = [Inr \<lparr>PType = ''p'', V0 = ''alice'', V1 = ''data1'', V2 = ''read'',
                          V3 = [], V4 = [], V5 = []\<rparr>],
           iter_err = Some ''connection reset by peer'', close_err = None\<rparr>)\<rparr>)
       \<lparr>databaseName = ''casbin'', filtered = False\<rparr> empty_model None []
     = (\<lparr>databaseName = ''casbin'', filtered = False\<rparr>,
        empty_model(''p'' \<mapsto> [''p'' \<mapsto> \<lparr>Policy = [[''alice'', ''data1'', ''read'']]\<rparr>]),
        Returned None)"
  by (simp add: LoadFilteredPolicy_def loadPolicyLine_def section_of_def tokens_of_def
        empty_model_def Let_def)

text \<open>
  C5 (as amended). A call of \<open>LoadFilteredPolicy\<close> with the nil (absent) filter leaves
  \<open>filtered\<close> false, and a call with any non-nil filter leaves it true, however the call
  ends and whatever the filter holds: the empty document \<open>bson.D{}\<close> passed by the caller
  sets the flag as well, although it selects the same records as nil. \<open>LoadPolicy\<close> leaves
  the flag false. No other operation changes the adapter: \<open>SavePolicy\<close>, \<open>AddPolicy\<close>,
  \<open>RemovePolicy\<close> and \<open>RemoveFilteredPolicy\<close> hand it back as it was, and \<open>IsFiltered\<close> only
  reads the flag.
\<close>

theorem filtered_flag_set_by_load_only:
  "fst (LoadFilteredPolicy drv a model None db) = a\<lparr>filtered := False\<rparr>
   \<and> fst (LoadFilteredPolicy drv a model (Some f) db) = a\<lparr>filtered := True\<rparr>
   \<and> fst (LoadFilteredPolicy drv a model (Some (EmptyD drv)) db) = a\<lparr>filtered := True\<rparr>
   \<and> fst (LoadPolicy drv a model db) = a\<lparr>filtered := False\<rparr>
   \<and> fst (SavePolicy drv pkeys gkeys a model db) = a
   \<and> fst (AddPolicy drv a sec ptype rule db) = a
   \<and> fst (RemovePolicy drv a sec ptype rule db) = a
   \<and> fst (RemoveFilteredPolicy drv a sec ptype fieldIndex fieldValues db) = a
   \<and> IsFiltered a = filtered a"
proof (intro conjI)
  show "fst (LoadFilteredPolicy drv a model None db) = a\<lparr>filtered := False\<rparr>"
    by (simp add: LoadFilteredPolicy_adapter)
  show "fst (LoadFilteredPolicy drv a model (Some f) db) = a\<lparr>filtered := True\<rparr>"
    by (simp add: LoadFilteredPolicy_adapter)
  show "fst (LoadFilteredPolicy drv a model (Some (EmptyD drv)) db) = a\<lparr>filtered := True\<rparr>"
    by (simp add: LoadFilteredPolicy_adapter)
  show "fst (LoadPolicy drv a model db) = a\<lparr>filtered := False\<rparr>"
    by (simp add: LoadPolicy_def LoadFilteredPolicy_adapter)
  show "fst (SavePolicy drv pkeys gkeys a model db) = a"
    by (simp add: SavePolicy_def Let_def split: prod.split option.split)
  show "fst (AddPolicy drv a sec ptype rule db) = a"
    by (simp add: AddPolicy_def Let_def split: prod.split)
  show "fst (RemovePolicy drv a sec ptype rule db) = a"
    by (simp add: RemovePolicy_def Let_def split: prod.split)
  show "fst (RemoveFilteredPolicy drv a sec ptype fieldIndex fieldValues db) = a"
    by (simp add: RemoveFilteredPolicy_def split: prod.split sum.split)
  show "IsFiltered a = filtered a"
    by (simp add: IsFiltered_def)
qed

text \<open>
  The claim as first stated fails for an empty filter that is not nil: with the empty
  document the call fetches and loads exactly what it does with nil, and ends with
  \<open>filtered\<close> true, where nil ends with \<open>filtered\<close> false.
\<close>

theorem empty_document_filter_counterexample:
  "LoadFilteredPolicy mem_driver \<lparr>databaseName = ''casbin'', filtered = False\<rparr> empty_model
       (Some (EmptyD mem_driver))
       [Inr \<lparr>PType = ''p'', V0 = ''alice'', V1 = ''data1'', V2 = ''read'', V3 = [], V4 = [], V5 = []\<rparr>]
     = (\<lparr>databaseName = ''casbin'', filtered = True\<rparr>,
        empty_model(''p'' \<mapsto> [''p'' \<mapsto> \<lparr>Policy = [[''alice'', ''data1'', ''read'']]\<rparr>]),
        Returned None)
   \<and> LoadFilteredPolicy mem_driver \<lparr>databaseName = ''casbin'', filtered = False\<rparr> empty_model
       None
       [Inr \<lparr>PType = ''p'', V0 = ''alice'', V1 = ''data1'', V2 = ''read'', V3 = [], V4 = [], V5 = []\<rparr>]
     = (\<lparr>databaseName = ''casbin'', filtered = False\<rparr>,
        empty_model(''p'' \<mapsto> [''p'' \<mapsto> \<lparr>Policy = [[''alice'', ''data1'', ''read'']]\<rparr>]),
        Returned None)
   \<and> filtered (fst (LoadFilteredPolicy mem_driver \<lparr>databaseName = ''casbin'', filtered = False\<rparr>
       empty_model (Some (EmptyD mem_driver))
       [Inr \<lparr>PType = ''p'', V0 = ''alice'', V1 = ''data1'', V2 = ''read'', V3 = [], V4 = [], V5 = []\<rparr>]))
     \<noteq> False"
  by (simp add: LoadFilteredPolicy_def mem_driver_def loadPolicyLine_def section_of_def
        tokens_of_def empty_model_def Let_def)

text \<open>
  C7. When the cursor of a \<open>LoadFilteredPolicy\<close> delivers one document that does not decode
  among documents that do, and the model has the assertions of their type tags, the call
  returns what closing the cursor returns, and every decoded record is in the model: under
  each type tag the rules are the former ones followed by the tuples of the decoded records
  of that type, in order.
\<close>

theorem malformed_record_skipped:
  assumes "Find drv (case fltr of None \<Rightarrow> EmptyD drv | Some f \<Rightarrow> f) db = Inr cur"
    and "docs cur = map Inr before @ Inl e # map Inr after"
    and "list_all (loadable model) (before @ after)"
  shows "\<exists>model'.
      LoadFilteredPolicy drv a model fltr db =
        (a\<lparr>filtered := fltr \<noteq> None\<rparr>, model', Returned (close_err cur))
    \<and> (\<forall>key. policy_at model' key =
          policy_at model key @ map tokens_of (filter (\<lambda>l. PType l = key) (before @ after)))"
proof -
  from load_lines_loadable[OF assms(3)] obtain model' where
    l: "load_lines (map Inr (before @ after)) model = (model', None)"
    and p: "\<forall>key. policy_at model' key =
          policy_at model key @ map tokens_of (filter (\<lambda>l. PType l = key) (before @ after))"
    by blast
  have "load_lines (docs cur) model = load_lines (map Inr before @ map Inr after) model"
    by (simp only: assms(2) load_lines_skip)
  with l have "load_lines (docs cur) model = (model', None)" by simp
  from LoadFilteredPolicy_cursor[OF assms(1) this] p show ?thesis by blast
qed

theorem malformed_record_skipped_witness:
  "\<exists>model'.
     LoadFilteredPolicy mem_driver \<lparr>databaseName = ''casbin'', filtered = True\<rparr> empty_model None
       [Inr \<lparr>PType = ''p'', V0 = ''alice'', V1 = ''data1'', V2 = ''read'', V3 = [], V4 = [], V5 = []\<rparr>,
        Inl ''cannot decode 32-bit integer into a string type'',
        Inr \<lparr>PType = ''g'', V0 = ''alice'', V1 = ''admin'', V2 = [], V3 = [], V4 = [], V5 = []\<rparr>]
     = (\<lparr>databaseName = ''casbin'', filtered = False\<rparr>, model', Returned None)
   \<and> policy_at model' ''p'' = [[''alice'', ''data1'', ''read'']]
   \<and> policy_at model' ''g'' = [[''alice'', ''admin'']]"
proof -
  let ?p = "\<lparr>PType = ''p'', V0 = ''alice'', V1 = ''data1'', V2 = ''read'', V3 = [], V4 = [], V5 = []\<rparr>"
  let ?g = "\<lparr>PType = ''g'', V0 = ''alice'', V1 = ''admin'', V2 = [], V3 = [], V4 = [], V5 = []\<rparr>"
  let ?db = "[Inr ?p, Inl ''cannot decode 32-bit integer into a string type'', Inr ?g]"
  let ?cur = "\<lparr>docs = ?db, iter_err = None, close_err = None\<rparr>"
  have f: "Find mem_driver (case None of None \<Rightarrow> EmptyD mem_driver | Some f \<Rightarrow> f) ?db = Inr ?cur"
    by (simp add: mem_driver_def)
  have d: "docs ?cur = map Inr [?p] @ Inl ''cannot decode 32-bit integer into a string type'' # map Inr [?g]"
    by simp
  have l: "list_all (loadable empty_model) ([?p] @ [?g])"
    by (simp add: loadable_def empty_model_def)
  from malformed_record_skipped[OF f d l, of "\<lparr>databaseName = ''casbin'', filtered = True\<rparr>"]
  obtain model' where
    r: "LoadFilteredPolicy mem_driver \<lparr>databaseName = ''casbin'', filtered = True\<rparr> empty_model None ?db
          = (\<lparr>databaseName = ''casbin'', filtered = True\<rparr>\<lparr>filtered := None \<noteq> (None :: unit option)\<rparr>,
             model', Returned (close_err ?cur))"
    and p: "\<And>key. policy_at model' key =
          policy_at empty_model key @ map tokens_of (filter (\<lambda>l. PType l = key) ([?p] @ [?g]))"
    by blast
  have "policy_at model' ''p'' = [[''alice'', ''data1'', ''read'']]"
    by (simp only: p) (simp add: policy_at_def empty_model_def tokens_of_def)
  moreover have "policy_at model' ''g'' = [[''alice'', ''admin'']]"
    by (simp only: p) (simp add: policy_at_def empty_model_def tokens_of_def)
  moreover from r have "LoadFilteredPolicy mem_driver \<lparr>databaseName = ''casbin'', filtered = True\<rparr>
      empty_model None ?db = (\<lparr>databaseName = ''casbin'', filtered = False\<rparr>, model', Returned None)"
    by simp
  ultimately show ?thesis by blast
qed

end
